theory Spec2Isabelle
  imports Main "HOL-Library.Word"
begin

section \<open>ir_collect.py: the host-triage collector\<close>

text \<open>
  A shallow embedding of \<^verbatim>\<open>ir_collect.py\<close>. Python strings are \<^typ>\<open>string\<close>,
  byte strings are lists of 8-bit words, a \<^verbatim>\<open>dict\<close> is an association list in
  insertion order, and every exception a function can raise is a value of a sum type.
  The operating system and the libraries the script calls (\<^verbatim>\<open>os\<close>, \<^verbatim>\<open>hashlib\<close>,
  \<^verbatim>\<open>csv\<close>, \<^verbatim>\<open>zipfile\<close>, \<^verbatim>\<open>boto3\<close>) are modelled by what CPython documents for them
  on a POSIX host.
\<close>

subsection \<open>Files and directories\<close>

type_synonym byte = "8 word"

text \<open>
  What opening and reading a directory entry does: \<open>Data bs\<close> reads as the bytes \<open>bs\<close>;
  \<open>OpenErr e\<close> makes \<^verbatim>\<open>open(path, 'rb')\<close> raise an \<^verbatim>\<open>OSError\<close> whose text is
  \<open>e\<close>; \<open>ReadErr bs e\<close> opens, delivers the bytes \<open>bs\<close> and then makes the next
  \<^verbatim>\<open>read\<close> raise an \<^verbatim>\<open>OSError\<close> with text \<open>e\<close>.
\<close>

datatype fobj = Data "byte list" | OpenErr string | ReadErr "byte list" string

datatype node = File fobj | Dir "(string \<times> node) list"

text \<open>
  The host's name resolution: the node a path string denotes, if any. The empty path
  denotes nothing on POSIX (\<^verbatim>\<open>ENOENT\<close>).
\<close>

type_synonym filesystem = "string \<Rightarrow> node option"

definition resolve :: "filesystem \<Rightarrow> string \<Rightarrow> node option" where
  "resolve fs p = (if p = [] then None else fs p)"

definition os_path_exists :: "filesystem \<Rightarrow> string \<Rightarrow> bool" where
  "os_path_exists fs p = (resolve fs p \<noteq> None)"

subsection \<open>\<^verbatim>\<open>os.path.join\<close> and \<^verbatim>\<open>os.walk\<close>\<close>

text \<open>
  \<^verbatim>\<open>posixpath.join(a, b)\<close>: an absolute \<open>b\<close> replaces \<open>a\<close>; otherwise \<open>b\<close> is appended,
  after a separator unless \<open>a\<close> is empty or already ends with one.
\<close>

definition starts_with_sep :: "string \<Rightarrow> bool" where
  "starts_with_sep s = (case s of [] \<Rightarrow> False | c # _ \<Rightarrow> c = CHR ''/'')"

definition ends_with_sep :: "string \<Rightarrow> bool" where
  "ends_with_sep s = (s \<noteq> [] \<and> last s = CHR ''/'')"

definition os_path_join :: "string \<Rightarrow> string \<Rightarrow> string" where
  "os_path_join a b =
     (if starts_with_sep b then b
      else if a = [] \<or> ends_with_sep a then a @ b
      else a @ ''/'' @ b)"

text \<open>
  The two lists \<^verbatim>\<open>os.walk\<close> builds from \<^verbatim>\<open>os.scandir\<close>: the entries that are
  directories and those that are not, each in scan order.
\<close>

fun nondirs :: "(string \<times> node) list \<Rightarrow> (string \<times> fobj) list" where
  "nondirs [] = []"
| "nondirs ((n, File f) # es) = (n, f) # nondirs es"
| "nondirs ((n, Dir ds) # es) = nondirs es"

text \<open>
  \<^verbatim>\<open>os.walk(top)\<close>, top-down, \<^verbatim>\<open>onerror=None\<close>: a triple \<open>(root, dirs, files)\<close> for
  \<open>top\<close>, then the walk of each subdirectory in order. Scanning a \<open>top\<close> that is not a
  directory raises \<^verbatim>\<open>NotADirectoryError\<close> inside \<^verbatim>\<open>os.walk\<close>, which swallows it and
  yields nothing. The model keeps the \<open>root\<close> and the \<open>files\<close> of each triple, and with
  each file name the object that opening \<open>join(root, name)\<close> reaches.
\<close>

fun os_walk :: "string \<Rightarrow> node \<Rightarrow> (string \<times> (string \<times> fobj) list) list"
  and walk_dirs :: "string \<Rightarrow> (string \<times> node) list \<Rightarrow> (string \<times> (string \<times> fobj) list) list"
where
  "os_walk tp (File f) = []"
| "os_walk tp (Dir es) = (tp, nondirs es) # walk_dirs tp es"
| "walk_dirs tp [] = []"
| "walk_dirs tp ((n, File f) # es) = walk_dirs tp es"
| "walk_dirs tp ((n, Dir ds) # es) = os_walk (os_path_join tp n) (Dir ds) @ walk_dirs tp es"

subsection \<open>\<^verbatim>\<open>hashlib.sha256\<close> objects and binary file handles\<close>

text \<open>
  SHA-256 itself belongs to \<^verbatim>\<open>hashlib\<close>, not to the script: it is a parameter
  \<open>sha\<close> of the model, a function from a message to a 256-bit value. A hash object
  stands for the message fed to it so far (\<^verbatim>\<open>m.update(a); m.update(b)\<close> is
  \<^verbatim>\<open>m.update(a + b)\<close>), and \<^verbatim>\<open>hexdigest()\<close> prints the digest of that message
  as lowercase hexadecimal, most significant nibble first.
\<close>

type_synonym sha_fn = "byte list \<Rightarrow> 256 word"

definition sha256_new :: "byte list" where
  "sha256_new = []"

definition sha256_update :: "byte list \<Rightarrow> byte list \<Rightarrow> byte list" where
  "sha256_update m chunk = m @ chunk"

definition hex_digit :: "nat \<Rightarrow> char" where
  "hex_digit d = ''0123456789abcdef'' ! d"

definition to_hex :: "256 word \<Rightarrow> string" where
  "to_hex w = map (\<lambda>i. hex_digit (unat (drop_bit (4 * i) w) mod 16)) (rev [0..<64])"

definition hexdigest :: "sha_fn \<Rightarrow> byte list \<Rightarrow> string" where
  "hexdigest sha m = to_hex (sha m)"

text \<open>
  An open binary file: the bytes not yet read, and the error the read after the last
  byte raises, if any.
\<close>

type_synonym handle = "byte list \<times> string option"

fun open_rb :: "fobj \<Rightarrow> string + handle" where
  "open_rb (Data bs) = Inr (bs, None)"
| "open_rb (OpenErr e) = Inl e"
| "open_rb (ReadErr bs e) = Inr (bs, Some e)"

text \<open>
  \<^verbatim>\<open>f.read(n)\<close>: up to \<open>n\<close> bytes, the empty byte string at end of file (and for
  \<open>n = 0\<close>), or an \<^verbatim>\<open>OSError\<close>. It returns the chunk and the advanced handle.
\<close>

fun f_read :: "nat \<Rightarrow> handle \<Rightarrow> string + (byte list \<times> handle)" where
  "f_read n (rest, err) =
     (if n = 0 then Inr ([], (rest, err))
      else if rest = [] then (case err of None \<Rightarrow> Inr ([], (rest, err)) | Some e \<Rightarrow> Inl e)
      else Inr (take n rest, (drop n rest, err)))"

subsection \<open>\<^verbatim>\<open>hash_files\<close>\<close>

text \<open>
  \<^verbatim>\<open>for chunk in iter(lambda: f.read(n), b''): sha256.update(chunk)\<close>: read until
  the empty chunk, feeding each chunk to the hash object. An \<^verbatim>\<open>OSError\<close> leaves the
  loop.
\<close>

function read_loop :: "nat \<Rightarrow> handle \<Rightarrow> byte list \<Rightarrow> string + byte list" where
  "read_loop n h m =
     (case f_read n h of
        Inl e \<Rightarrow> Inl e
      | Inr (chunk, h') \<Rightarrow> if chunk = [] then Inr m else read_loop n h' (sha256_update m chunk))"
  by pat_completeness auto
termination
proof (relation "measure (\<lambda>(n, h, m). length (fst h))")
  show "wf (measure (\<lambda>(n, h, m). length (fst h)))"
    by simp
next
  fix n :: nat and h :: handle and m :: "byte list" and x chunk h'
  assume r: "f_read n h = Inr x" and x: "(chunk, h') = x" and ne: "chunk \<noteq> []"
  obtain rest err where h: "h = (rest, err)"
    by (cases h)
  from r x ne h have "n \<noteq> 0" and "rest \<noteq> []" and "h' = (drop n rest, err)"
    by (auto split: if_splits option.splits)
  then show "((n, h', sha256_update m chunk), (n, h, m)) \<in> measure (\<lambda>(n, h, m). length (fst h))"
    using h by simp
qed

declare read_loop.simps [simp del]

text \<open>
  The body of the \<^verbatim>\<open>try\<close>: open the file, run the loop with chunk size \<open>n\<close> on a
  fresh hash object, and print the digest. \<open>Inl e\<close> is the \<^verbatim>\<open>OSError\<close> caught by the
  \<^verbatim>\<open>except\<close> clause.
\<close>

definition digest_file :: "sha_fn \<Rightarrow> nat \<Rightarrow> fobj \<Rightarrow> string + string" where
  "digest_file sha n f =
     (case open_rb f of
        Inl e \<Rightarrow> Inl e
      | Inr h \<Rightarrow> (case read_loop n h sha256_new of
                   Inl e \<Rightarrow> Inl e
                 | Inr m \<Rightarrow> Inr (hexdigest sha m)))"

definition chunk_size :: nat where
  "chunk_size = 65536"

text \<open>
  A record is a \<^verbatim>\<open>dict\<close> from field names to strings, in insertion order. The state
  of a run of \<^verbatim>\<open>hash_files\<close> is the list \<^verbatim>\<open>hashes\<close> and the caller's list
  \<^verbatim>\<open>log_entries\<close>.
\<close>

type_synonym row = "(string \<times> string) list"

type_synonym hash_state = "row list \<times> string list"

fun hash_one :: "sha_fn \<Rightarrow> string \<Rightarrow> fobj \<Rightarrow> hash_state \<Rightarrow> hash_state" where
  "hash_one sha path f (hashes, log_entries) =
     (case digest_file sha chunk_size f of
        Inr d \<Rightarrow> (hashes @ [[(''file'', path), (''sha256'', d)]], log_entries)
      | Inl e \<Rightarrow> (hashes, log_entries @ [''Failed to hash '' @ path @ '': '' @ e]))"

text \<open>\<^verbatim>\<open>for fname in files\<close>, \<^verbatim>\<open>for root, _, files in os.walk(target)\<close> and
  \<^verbatim>\<open>for target in targets\<close>.\<close>

fun hash_names :: "sha_fn \<Rightarrow> string \<Rightarrow> (string \<times> fobj) list \<Rightarrow> hash_state \<Rightarrow> hash_state" where
  "hash_names sha root [] st = st"
| "hash_names sha root ((fname, f) # files) st =
     hash_names sha root files (hash_one sha (os_path_join root fname) f st)"

fun hash_walk :: "sha_fn \<Rightarrow> (string \<times> (string \<times> fobj) list) list \<Rightarrow> hash_state \<Rightarrow> hash_state" where
  "hash_walk sha [] st = st"
| "hash_walk sha ((root, files) # triples) st = hash_walk sha triples (hash_names sha root files st)"

fun hash_targets :: "sha_fn \<Rightarrow> filesystem \<Rightarrow> string list \<Rightarrow> hash_state \<Rightarrow> hash_state" where
  "hash_targets sha fs [] st = st"
| "hash_targets sha fs (target # targets) (hashes, log_entries) =
     (if \<not> os_path_exists fs target
      then hash_targets sha fs targets (hashes, log_entries @ [''Target path not found: '' @ target])
      else (case resolve fs target of
              Some nd \<Rightarrow> hash_targets sha fs targets
                           (hash_walk sha (os_walk target nd) (hashes, log_entries))
            | None \<Rightarrow> hash_targets sha fs targets (hashes, log_entries)))"

definition hash_files :: "sha_fn \<Rightarrow> filesystem \<Rightarrow> string list \<Rightarrow> string list \<Rightarrow> hash_state" where
  "hash_files sha fs targets log_entries = hash_targets sha fs targets ([], log_entries)"

text \<open>
  To state what a run returns: the files a traversal meets, as the path the script
  opens and the file object there, in the order of \<^verbatim>\<open>os.walk\<close>; the files of all
  targets that exist, in the order of the targets; the record a file that reads as
  \<open>bs\<close> is to give; and the log entry a file that fails is to give.
\<close>

definition walk_files :: "string \<Rightarrow> node \<Rightarrow> (string \<times> fobj) list" where
  "walk_files target nd =
     concat (map (\<lambda>(root, files). map (\<lambda>(fname, f). (os_path_join root fname, f)) files)
               (os_walk target nd))"

definition target_files :: "filesystem \<Rightarrow> string list \<Rightarrow> (string \<times> fobj) list" where
  "target_files fs targets =
     concat (map (\<lambda>target. case resolve fs target of None \<Rightarrow> [] | Some nd \<Rightarrow> walk_files target nd)
               targets)"

fun file_records :: "sha_fn \<Rightarrow> string \<times> fobj \<Rightarrow> row list" where
  "file_records sha (path, Data bs) = [[(''file'', path), (''sha256'', to_hex (sha bs))]]"
| "file_records sha (path, OpenErr e) = []"
| "file_records sha (path, ReadErr bs e) = []"

fun file_failures :: "string \<times> fobj \<Rightarrow> string list" where
  "file_failures (path, Data bs) = []"
| "file_failures (path, OpenErr e) = [''Failed to hash '' @ path @ '': '' @ e]"
| "file_failures (path, ReadErr bs e) = [''Failed to hash '' @ path @ '': '' @ e]"

definition target_log :: "filesystem \<Rightarrow> string \<Rightarrow> string list" where
  "target_log fs target =
     (case resolve fs target of
        None \<Rightarrow> [''Target path not found: '' @ target]
      | Some nd \<Rightarrow> concat (map file_failures (walk_files target nd)))"

subsection \<open>Exceptions\<close>

text \<open>
  The exceptions of the remaining functions, by class; all but \<open>ValueError\<close> carry
  their message. A \<open>ValueError\<close> is the one of \<^verbatim>\<open>posixpath.relpath\<close> (no path
  specified) or the one of \<^verbatim>\<open>csv.DictWriter\<close>, which names the fields of the record
  that are not in \<^verbatim>\<open>fieldnames\<close>. The writer computes them as the set
  \<^verbatim>\<open>rowdict.keys() - self.fieldnames\<close> and lists them in that set's iteration order,
  which changes with the hash seed of the run: the model keeps the set and no order.
  \<^verbatim>\<open>NoCredentialsError\<close> and \<^verbatim>\<open>EndpointConnectionError\<close> are subclasses of
  botocore's \<^verbatim>\<open>BotoCoreError\<close>; \<^verbatim>\<open>ClientError\<close> (botocore) and
  \<^verbatim>\<open>S3UploadFailedError\<close> (boto3) are not.
\<close>

datatype value_error = NoPathSpecified | FieldsNotInFieldnames "string set"

datatype exn =
    OSError string
  | ValueError value_error
  | IndexError string
  | BotoCoreError string
  | NoCredentialsError string
  | EndpointConnectionError string
  | ClientError string
  | S3UploadFailedError string

text \<open>
  \<^verbatim>\<open>str(e)\<close>. The script prints it for the exceptions \<^verbatim>\<open>upload_to_s3\<close> catches
  only; for the \<open>ValueError\<close> of the writer it is the text before the field names.
\<close>

fun exn_text :: "exn \<Rightarrow> string" where
  "exn_text (OSError m) = m"
| "exn_text (ValueError NoPathSpecified) = ''no path specified''"
| "exn_text (ValueError (FieldsNotInFieldnames ks)) = ''dict contains fields not in fieldnames: ''"
| "exn_text (IndexError m) = m"
| "exn_text (BotoCoreError m) = m"
| "exn_text (NoCredentialsError m) = m"
| "exn_text (EndpointConnectionError m) = m"
| "exn_text (ClientError m) = m"
| "exn_text (S3UploadFailedError m) = m"

subsection \<open>\<^verbatim>\<open>write_csv\<close>\<close>

text \<open>
  The disk as the writers see it: a CSV file is the list of rows handed to the
  \<^verbatim>\<open>csv\<close> writer, each a list of fields; \<open>denied path\<close> is the text of the
  \<^verbatim>\<open>OSError\<close> that \<^verbatim>\<open>open(path, 'w')\<close> raises, if it does.
\<close>

record disk =
  contents :: "string \<rightharpoonup> string list list"
  denied :: "string \<rightharpoonup> string"

text \<open>
  \<^verbatim>\<open>DictWriter._dict_to_list\<close> with the defaults \<^verbatim>\<open>extrasaction='raise'\<close> and
  \<^verbatim>\<open>restval=''\<close>, which is how \<^verbatim>\<open>write_csv\<close> constructs the writer: when the set
  \<^verbatim>\<open>rowdict.keys() - self.fieldnames\<close> is not empty it raises \<^verbatim>\<open>ValueError\<close> with
  that set; otherwise the row holds the value of each field name, or the empty string
  where the record lacks it.
\<close>

definition dict_get :: "row \<Rightarrow> string \<Rightarrow> string \<Rightarrow> string" where
  "dict_get rowdict key restval = (case map_of rowdict key of Some v \<Rightarrow> v | None \<Rightarrow> restval)"

definition dict_to_list :: "string list \<Rightarrow> row \<Rightarrow> exn + string list" where
  "dict_to_list fieldnames rowdict =
     (let wrong_fields = set (map fst rowdict) - set fieldnames
      in if wrong_fields \<noteq> {} then Inl (ValueError (FieldsNotInFieldnames wrong_fields))
         else Inr (map (\<lambda>key. dict_get rowdict key '''') fieldnames))"

text \<open>\<^verbatim>\<open>writer.writerow(row)\<close> appends the row to the file or raises and leaves it.\<close>

definition writerow :: "string list \<Rightarrow> row \<Rightarrow> string list list \<Rightarrow> exn + string list list" where
  "writerow fieldnames rowdict out =
     (case dict_to_list fieldnames rowdict of Inl e \<Rightarrow> Inl e | Inr vals \<Rightarrow> Inr (out @ [vals]))"

definition writeheader :: "string list \<Rightarrow> string list list \<Rightarrow> exn + string list list" where
  "writeheader fieldnames out = writerow fieldnames (zip fieldnames fieldnames) out"

text \<open>\<^verbatim>\<open>for row in rows: writer.writerow(row)\<close>; the exception, if any, comes with the
  rows written before it.\<close>

fun write_rows :: "string list \<Rightarrow> row list \<Rightarrow> string list list \<Rightarrow> exn option \<times> string list list" where
  "write_rows fieldnames [] out = (None, out)"
| "write_rows fieldnames (r # rs) out =
     (case writerow fieldnames r out of
        Inl e \<Rightarrow> (Some e, out)
      | Inr out' \<Rightarrow> write_rows fieldnames rs out')"

text \<open>
  \<^verbatim>\<open>write_csv(rows, path)\<close> returns the exception that leaves it, if any, and the disk.
  The \<^verbatim>\<open>with\<close> block closes the file on an exception too, so what was written stays.
\<close>

fun write_csv :: "row list \<Rightarrow> string \<Rightarrow> disk \<Rightarrow> exn option \<times> disk" where
  "write_csv [] path d = (None, d)"
| "write_csv (r0 # rest) path d =
     (let fieldnames = map fst r0 in
      case denied d path of
        Some e \<Rightarrow> (Some (OSError e), d)
      | None \<Rightarrow>
          (case writeheader fieldnames [] of
             Inl e \<Rightarrow> (Some e, d\<lparr>contents := (contents d)(path \<mapsto> [])\<rparr>)
           | Inr out \<Rightarrow>
               (case write_rows fieldnames (r0 # rest) out of
                  (e, out') \<Rightarrow> (e, d\<lparr>contents := (contents d)(path \<mapsto> out')\<rparr>))))"

subsection \<open>\<^verbatim>\<open>collect_connections\<close>\<close>

text \<open>\<^verbatim>\<open>str\<close> of an integer.\<close>

fun str_nat :: "nat \<Rightarrow> string" where
  "str_nat n = (if n < 10 then [''0123456789'' ! n] else str_nat (n div 10) @ [''0123456789'' ! (n mod 10)])"

definition str_int :: "int \<Rightarrow> string" where
  "str_int i = (if i < 0 then CHR ''-'' # str_nat (nat (- i)) else str_nat (nat i))"

text \<open>
  One element of \<^verbatim>\<open>psutil.net_connections(kind='inet')\<close>: \<^verbatim>\<open>pid\<close> is an integer or
  \<^verbatim>\<open>None\<close>, an address is an \<open>(ip, port)\<close> pair or the empty tuple.
\<close>

record sconn =
  pid :: "int option"
  laddr :: "(string \<times> nat) option"
  raddr :: "(string \<times> nat) option"
  status :: string

definition addr_str :: "(string \<times> nat) option \<Rightarrow> string" where
  "addr_str a = (case a of Some (ip, port) \<Rightarrow> ip @ '':'' @ str_nat port | None \<Rightarrow> '''')"

text \<open>\<^verbatim>\<open>str(conn.pid) if conn.pid else ''\<close>: \<^verbatim>\<open>None\<close> and \<open>0\<close> are both false.\<close>

definition pid_str :: "int option \<Rightarrow> string" where
  "pid_str p = (case p of None \<Rightarrow> '''' | Some i \<Rightarrow> if i \<noteq> 0 then str_int i else '''')"

definition conn_row :: "sconn \<Rightarrow> row" where
  "conn_row conn =
     [(''pid'', pid_str (pid conn)),
      (''local_address'', addr_str (laddr conn)),
      (''remote_address'', addr_str (raddr conn)),
      (''status'', status conn)]"

definition collect_connections :: "sconn list \<Rightarrow> row list" where
  "collect_connections net_connections = map conn_row net_connections"

subsection \<open>\<^verbatim>\<open>upload_to_s3\<close> and the call \<^verbatim>\<open>main\<close> makes\<close>

text \<open>\<^verbatim>\<open>prefix.rstrip('/')\<close>: drop the separators at the end.\<close>

definition rstrip_sep :: "string \<Rightarrow> string" where
  "rstrip_sep s = rev (dropWhile (\<lambda>c. c = CHR ''/'') (rev s))"

text \<open>
  \<^verbatim>\<open>posixpath.basename(p)\<close> is \<^verbatim>\<open>p[p.rfind('/') + 1:]\<close>, where \<^verbatim>\<open>rfind\<close> is the
  highest index of a separator, or \<open>-1\<close>.
\<close>

definition rfind_sep :: "string \<Rightarrow> int" where
  "rfind_sep s =
     (case find (\<lambda>i. s ! i = CHR ''/'') (rev [0..<length s]) of
        None \<Rightarrow> - 1
      | Some i \<Rightarrow> int i)"

definition os_path_basename :: "string \<Rightarrow> string" where
  "os_path_basename p = drop (nat (rfind_sep p + 1)) p"

text \<open>
  What the run finds of boto3: whether the import succeeded, the exception
  \<^verbatim>\<open>boto3.client('s3')\<close> raises, if any, and the exception
  \<^verbatim>\<open>s3.upload_file(zip_path, bucket, key)\<close> raises for given arguments, if any.
\<close>

record s3_env =
  boto3_installed :: bool
  client_raises :: "exn option"
  upload_file_raises :: "string \<Rightarrow> string \<Rightarrow> string \<Rightarrow> exn option"

text \<open>\<^verbatim>\<open>except (BotoCoreError, NoCredentialsError)\<close>: the classes and their subclasses.\<close>

fun caught_by_upload :: "exn \<Rightarrow> bool" where
  "caught_by_upload (BotoCoreError m) = True"
| "caught_by_upload (NoCredentialsError m) = True"
| "caught_by_upload (EndpointConnectionError m) = True"
| "caught_by_upload (OSError m) = False"
| "caught_by_upload (ValueError v) = False"
| "caught_by_upload (IndexError m) = False"
| "caught_by_upload (ClientError m) = False"
| "caught_by_upload (S3UploadFailedError m) = False"

text \<open>
  The outcome of \<^verbatim>\<open>upload_to_s3\<close>: the exception that leaves it, if any, the lines it
  printed, and the \<^verbatim>\<open>upload_file\<close> calls it made, as \<open>(file, bucket, key)\<close>.
\<close>

record upload_outcome =
  raised :: "exn option"
  printed :: "string list"
  uploads :: "(string \<times> string \<times> string) list"

definition upload_to_s3 :: "s3_env \<Rightarrow> string \<Rightarrow> string \<Rightarrow> string \<Rightarrow> upload_outcome" where
  "upload_to_s3 env zip_path bucket prefix =
     (if \<not> boto3_installed env
      then \<lparr>raised = None, printed = [''boto3 is not installed; cannot upload to S3.''], uploads = []\<rparr>
      else case client_raises env of
        Some e \<Rightarrow> \<lparr>raised = Some e, printed = [], uploads = []\<rparr>
      | None \<Rightarrow>
          (let key = rstrip_sep prefix @ ''/'' @ os_path_basename zip_path in
           case upload_file_raises env zip_path bucket key of
             None \<Rightarrow>
               \<lparr>raised = None,
                printed = [''Uploaded '' @ zip_path @ '' to s3://'' @ bucket @ ''/'' @ key],
                uploads = [(zip_path, bucket, key)]\<rparr>
           | Some e \<Rightarrow>
               if caught_by_upload e
               then \<lparr>raised = None, printed = [''Failed to upload to S3: '' @ exn_text e],
                     uploads = [(zip_path, bucket, key)]\<rparr>
               else \<lparr>raised = Some e, printed = [], uploads = [(zip_path, bucket, key)]\<rparr>))"

text \<open>
  The parsed command line. \<^verbatim>\<open>--s3-bucket\<close> defaults to \<^verbatim>\<open>None\<close>, \<^verbatim>\<open>--s3-prefix\<close> to
  the empty string.
\<close>

record args =
  arg_targets :: "string list"
  arg_zip :: bool
  arg_s3_bucket :: "string option"
  arg_s3_prefix :: string

text \<open>\<^verbatim>\<open>a or b\<close> on strings: \<open>a\<close> unless it is empty.\<close>

definition str_or :: "string \<Rightarrow> string \<Rightarrow> string" where
  "str_or a b = (if a \<noteq> [] then a else b)"

text \<open>
  The end of \<^verbatim>\<open>main\<close>: the arguments of its call to \<^verbatim>\<open>upload_to_s3\<close>, when the
  bucket is given and not empty (so that the archive was made just before).
\<close>

definition main_upload_call :: "args \<Rightarrow> string \<Rightarrow> (string \<times> string \<times> string) option" where
  "main_upload_call a timestamp =
     (case arg_s3_bucket a of
        None \<Rightarrow> None
      | Some bucket \<Rightarrow>
          if bucket = [] then None
          else Some (os_path_join ''output'' (timestamp @ ''.zip''), bucket,
                     str_or (arg_s3_prefix a) timestamp))"

subsection \<open>\<^verbatim>\<open>posixpath\<close>: \<^verbatim>\<open>normpath\<close>, \<^verbatim>\<open>abspath\<close>, \<^verbatim>\<open>relpath\<close>\<close>


fun sep_join :: "string list \<Rightarrow> string" where
  "sep_join [] = []"
| "sep_join [x] = x"
| "sep_join (x # y # ys) = x @ ''/'' @ sep_join (y # ys)"









subsection \<open>\<^verbatim>\<open>zipfile\<close> and \<^verbatim>\<open>compress_directory\<close>\<close>

















subsection \<open>Concrete inputs for closed examples\<close>

text \<open>
  The theorems below hold for every digest function. Closed examples need one, so
  they use this stand-in; its values are never inspected.
\<close>

definition example_sha :: sha_fn where
  "example_sha bs = word_of_nat (length bs)"

definition example_fs :: filesystem where
  "example_fs = [''/tmp/a.txt'' \<mapsto> File (Data [104, 105]),
                 ''/tmp/d'' \<mapsto> Dir [(''x'', File (Data [1, 2, 3])), (''y'', File (ReadErr [7] ''Input/output error'')), (''z'', File (Data []))]]"


definition example_tree_fs :: filesystem where
  "example_tree_fs =
     [''/srv/data'' \<mapsto>
        Dir [(''a.txt'', File (Data [104, 101, 108, 108, 111])),
             (''locked'', File (OpenErr ''Permission denied'')),
             (''sub'', Dir [(''b.bin'', File (Data [])),
                            (''bad'', File (ReadErr [1, 2] ''Input/output error''))]),
             (''z'', File (Data [255]))]]"

definition example_disk :: disk where
  "example_disk = \<lparr>contents = Map.empty, denied = Map.empty\<rparr>"

definition example_env :: s3_env where
  "example_env =
     \<lparr>boto3_installed = True, client_raises = None,
      upload_file_raises = (\<lambda>zip_path bucket key.
        if bucket = ''denied'' then Some (S3UploadFailedError ''AccessDenied'') else None)\<rparr>"




section \<open>Properties\<close>

subsection \<open>The file hasher\<close>

lemma read_loop_data: "0 < n \<Longrightarrow> read_loop n (bs, None) m = Inr (m @ bs)"
proof (induction n "(bs, None :: string option)" m arbitrary: bs rule: read_loop.induct)
  case (1 n m)
  show ?case
  proof (cases "bs = []")
    case True
    then show ?thesis using 1(2) by (subst read_loop.simps) simp
  next
    case False
    have "read_loop n (bs, None) m = read_loop n (drop n bs, None) (sha256_update m (take n bs))"
      using False 1(2) by (subst read_loop.simps) simp
    also have "\<dots> = Inr (sha256_update m (take n bs) @ drop n bs)"
      using False 1(2) by (intro 1(1)) auto
    finally show ?thesis by (simp add: sha256_update_def)
  qed
qed

lemma read_loop_error: "0 < n \<Longrightarrow> read_loop n (bs, Some e) m = Inl e"
proof (induction n "(bs, Some e)" m arbitrary: bs rule: read_loop.induct)
  case (1 n m)
  show ?case
  proof (cases "bs = []")
    case True
    then show ?thesis using 1(2) by (subst read_loop.simps) simp
  next
    case False
    have "read_loop n (bs, Some e) m = read_loop n (drop n bs, Some e) (sha256_update m (take n bs))"
      using False 1(2) by (subst read_loop.simps) simp
    also have "\<dots> = Inl e"
      using False 1(2) by (intro 1(1)) auto
    finally show ?thesis .
  qed
qed

lemma hex_digit_in: "d < 16 \<Longrightarrow> hex_digit d \<in> set ''0123456789abcdef''"
  unfolding hex_digit_def by (rule nth_mem) simp

lemma to_hex_length: "length (to_hex w) = 64"
  by (simp add: to_hex_def)

lemma to_hex_lower: "set (to_hex w) \<subseteq> set ''0123456789abcdef''"
  unfolding to_hex_def using hex_digit_in by (auto simp del: list.set)

lemma digest_file_data: "0 < n \<Longrightarrow> digest_file sha n (Data bs) = Inr (to_hex (sha bs))"
  by (simp add: digest_file_def read_loop_data hexdigest_def sha256_new_def)

lemma digest_file_fails:
  "0 < n \<Longrightarrow> digest_file sha n f = Inl e \<longleftrightarrow> f = OpenErr e \<or> (\<exists>bs. f = ReadErr bs e)"
  by (cases f) (auto simp: digest_file_def read_loop_data read_loop_error)

lemma chunk_size_pos: "0 < chunk_size"
  by (simp add: chunk_size_def)

lemma hash_names_append:
  "hash_names sha root (xs @ ys) st = hash_names sha root ys (hash_names sha root xs st)"
proof (induction xs arbitrary: st)
  case Nil
  show ?case by simp
next
  case (Cons x xs)
  obtain n f where "x = (n, f)" by (cases x)
  then show ?case by (simp only: append_Cons hash_names.simps Cons)
qed

lemma hash_targets_append:
  "hash_targets sha fs (xs @ ys) st = hash_targets sha fs ys (hash_targets sha fs xs st)"
proof (induction xs arbitrary: st)
  case Nil
  show ?case by simp
next
  case (Cons t ts)
  obtain hs lg where st: "st = (hs, lg)" by (cases st)
  show ?case unfolding st by (simp add: Cons split: option.splits)
qed

lemma hash_targets_missing:
  "\<forall>t\<in>set targets. \<not> os_path_exists fs t \<Longrightarrow>
   hash_targets sha fs targets (hs, lg) = (hs, lg @ map (\<lambda>t. ''Target path not found: '' @ t) targets)"
  by (induction targets arbitrary: lg) auto


lemma digest_file_open_error: "digest_file sha n (OpenErr e) = Inl e"
  by (simp add: digest_file_def)

lemma digest_file_read_error: "0 < n \<Longrightarrow> digest_file sha n (ReadErr bs e) = Inl e"
  by (simp add: digest_file_def read_loop_error)

lemma hash_one_outcome:
  "hash_one sha path f (hs, lg) = (hs @ file_records sha (path, f), lg @ file_failures (path, f))"
  by (cases f)
    (simp_all add: digest_file_data digest_file_open_error digest_file_read_error chunk_size_pos)

lemma hash_names_outcome:
  "hash_names sha root files (hs, lg) =
     (hs @ concat (map (file_records sha) (map (\<lambda>(fname, f). (os_path_join root fname, f)) files)),
      lg @ concat (map file_failures (map (\<lambda>(fname, f). (os_path_join root fname, f)) files)))"
proof (induction files arbitrary: hs lg)
  case Nil
  show ?case by simp
next
  case (Cons x files)
  obtain fname f where x: "x = (fname, f)" by (cases x)
  show ?case
    unfolding x by (simp add: hash_one_outcome Cons del: hash_one.simps)
qed

lemma hash_walk_outcome:
  "hash_walk sha triples (hs, lg) =
     (hs @ concat (map (file_records sha)
             (concat (map (\<lambda>(root, files). map (\<lambda>(fname, f). (os_path_join root fname, f)) files) triples))),
      lg @ concat (map file_failures
             (concat (map (\<lambda>(root, files). map (\<lambda>(fname, f). (os_path_join root fname, f)) files) triples))))"
proof (induction triples arbitrary: hs lg)
  case Nil
  show ?case by simp
next
  case (Cons x triples)
  obtain root files where x: "x = (root, files)" by (cases x)
  show ?case
    unfolding x by (simp add: hash_names_outcome Cons)
qed

lemma hash_targets_outcome:
  "hash_targets sha fs targets (hs, lg) =
     (hs @ concat (map (file_records sha) (target_files fs targets)),
      lg @ concat (map (target_log fs) targets))"
proof (induction targets arbitrary: hs lg)
  case Nil
  show ?case by (simp add: target_files_def)
next
  case (Cons t targets)
  have tf: "target_files fs (t # targets) =
      (case resolve fs t of None \<Rightarrow> [] | Some nd \<Rightarrow> walk_files t nd) @ target_files fs targets"
    by (simp add: target_files_def)
  show ?case
  proof (cases "resolve fs t")
    case None
    then show ?thesis
      by (simp add: tf os_path_exists_def target_log_def Cons)
  next
    case (Some nd)
    then show ?thesis
      by (simp add: tf os_path_exists_def target_log_def Cons hash_walk_outcome walk_files_def)
  qed
qed

text \<open>
  Claim C1. The records \<^verbatim>\<open>hash_files\<close> returns are, in traversal order, one per file
  that is read without an I/O error and none for any other: the file's path with the
  hexadecimal SHA-256 of the bytes read, which has 64 characters, each a digit or a
  lowercase letter \<open>a\<close> to \<open>f\<close>. Reading in chunks of any size \<open>n \<ge> 1\<close> gives the
  digest of the whole byte stream hashed at once.
\<close>

theorem hash_files_records_sha256:
  "1 \<le> n \<Longrightarrow>
   fst (hash_files sha fs targets log_entries) =
     concat (map (file_records sha) (target_files fs targets)) \<and>
   digest_file sha n (Data bs) = Inr (hexdigest sha (sha256_update sha256_new bs)) \<and>
   hexdigest sha (sha256_update sha256_new bs) = to_hex (sha bs) \<and>
   length (to_hex (sha bs)) = 64 \<and>
   set (to_hex (sha bs)) \<subseteq> set ''0123456789abcdef''"
  using to_hex_lower [of "sha bs"]
  by (simp add: hash_files_def hash_targets_outcome digest_file_data to_hex_length hexdigest_def
      sha256_update_def sha256_new_def del: list.set)

theorem hash_files_records_sha256_witness:
  "(1::nat) \<le> 3 \<and>
   fst (hash_files example_sha example_tree_fs [''/srv/data'', ''/missing''] []) =
     [[(''file'', ''/srv/data/a.txt''), (''sha256'', to_hex (example_sha [104, 101, 108, 108, 111]))],
      [(''file'', ''/srv/data/z''), (''sha256'', to_hex (example_sha [255]))],
      [(''file'', ''/srv/data/sub/b.bin''), (''sha256'', to_hex (example_sha []))]] \<and>
   digest_file example_sha 3 (Data [104, 101, 108, 108, 111]) =
     Inr (to_hex (example_sha [104, 101, 108, 108, 111]))"
  using hash_files_records_sha256 [of 3 example_sha example_tree_fs "[''/srv/data'', ''/missing'']"
      "[]" "[104, 101, 108, 108, 111]"]
  by (simp add: target_files_def walk_files_def resolve_def example_tree_fs_def
      os_path_join_def starts_with_sep_def ends_with_sep_def)

text \<open>
  Claim C2 says that a target which is itself a regular file is hashed directly and
  yields exactly one record. It is not: \<^verbatim>\<open>os.walk\<close> yields nothing for a root that is
  not a directory, so the target contributes no record at all (and no log entry).
\<close>

theorem hash_files_file_target_counterexample:
  "os_path_exists example_fs ''/tmp/a.txt'' \<and>
   resolve example_fs ''/tmp/a.txt'' = Some (File (Data [104, 105])) \<and>
   hash_files example_sha example_fs [''/tmp/a.txt''] [] = ([], [])"
  by (simp add: hash_files_def os_path_exists_def resolve_def example_fs_def)

text \<open>
  Claim C2, as amended: a target that is a regular file contributes nothing, neither a
  record nor a log entry. The run is the same as without that target.
\<close>

theorem hash_files_file_target_skipped:
  "resolve fs target = Some (File f) \<Longrightarrow>
   hash_files sha fs (pre @ target # post) log_entries = hash_files sha fs (pre @ post) log_entries"
proof -
  assume r: "resolve fs target = Some (File f)"
  obtain hs lg where st: "hash_targets sha fs pre ([], log_entries) = (hs, lg)"
    by (cases "hash_targets sha fs pre ([], log_entries)")
  show ?thesis
    unfolding hash_files_def hash_targets_append [of sha fs pre] st
    using r by (simp add: os_path_exists_def)
qed

theorem hash_files_file_target_skipped_witness:
  "resolve example_fs ''/tmp/a.txt'' = Some (File (Data [104, 105])) \<and>
   hash_files example_sha example_fs ([''/nowhere''] @ ''/tmp/a.txt'' # [''/tmp/d'']) [] =
   hash_files example_sha example_fs ([''/nowhere''] @ [''/tmp/d'']) []"
  using hash_files_file_target_skipped [of example_fs "''/tmp/a.txt''" "Data [104, 105]"
      example_sha "[''/nowhere'']" "[''/tmp/d'']" "[]"]
  by (simp add: resolve_def example_fs_def)

text \<open>
  Claim C3. When no target exists, \<^verbatim>\<open>hash_files\<close> returns no record and appends one
  entry per target, in order, each ending with that target's path; the model has no
  exception branch here. With no target at all the log is left as it was.
\<close>

theorem hash_files_missing_targets:
  "\<forall>t\<in>set targets. \<not> os_path_exists fs t \<Longrightarrow>
   hash_files sha fs targets log_entries =
     ([], log_entries @ map (\<lambda>t. ''Target path not found: '' @ t) targets) \<and>
   hash_files sha fs [] log_entries = ([], log_entries)"
  by (simp add: hash_files_def hash_targets_missing)

theorem hash_files_missing_targets_witness:
  "\<not> os_path_exists example_fs ''/no/such/dir'' \<and> \<not> os_path_exists example_fs '''' \<and>
   hash_files example_sha example_fs [''/no/such/dir'', ''''] [''earlier''] =
     ([], [''earlier'', ''Target path not found: /no/such/dir'', ''Target path not found: ''])"
proof -
  have h: "\<forall>t\<in>set [''/no/such/dir'', ''''] . \<not> os_path_exists example_fs t"
    by (simp add: os_path_exists_def resolve_def example_fs_def)
  show ?thesis
    using h hash_files_missing_targets [OF h, of example_sha "[''earlier'']"] by simp
qed

text \<open>
  Claim C4. \<^verbatim>\<open>hash_files\<close> has no exception branch for a file: it returns, and what
  it returns is determined file by file. A file whose open or read raises an
  \<^verbatim>\<open>OSError\<close> with text \<open>e\<close> (these are the files for which the hashing of one file
  fails) gives exactly the log entry \<open>Failed to hash <path>: <e>\<close> and no record; a file
  that reads gives its record and no log entry; and this holds for every file of every
  target, so the files after a failing one, in its directory and in those walked
  later, are processed.
\<close>

theorem hash_files_failures_logged:
  "hash_files sha fs targets log_entries =
     (concat (map (file_records sha) (target_files fs targets)),
      log_entries @ concat (map (target_log fs) targets)) \<and>
   (digest_file sha chunk_size f = Inl e) = (f = OpenErr e \<or> (\<exists>bs. f = ReadErr bs e))"
  by (simp add: hash_files_def hash_targets_outcome digest_file_fails chunk_size_pos)

theorem hash_files_failures_logged_witness:
  "hash_files example_sha example_tree_fs [''/srv/data'', ''/missing''] [''earlier''] =
     ([[(''file'', ''/srv/data/a.txt''), (''sha256'', to_hex (example_sha [104, 101, 108, 108, 111]))],
       [(''file'', ''/srv/data/z''), (''sha256'', to_hex (example_sha [255]))],
       [(''file'', ''/srv/data/sub/b.bin''), (''sha256'', to_hex (example_sha []))]],
      [''earlier'',
       ''Failed to hash /srv/data/locked: Permission denied'',
       ''Failed to hash /srv/data/sub/bad: Input/output error'',
       ''Target path not found: /missing''])"
  using hash_files_failures_logged [of example_sha example_tree_fs "[''/srv/data'', ''/missing'']"
      "[''earlier'']"]
  by (simp add: target_files_def target_log_def walk_files_def resolve_def example_tree_fs_def
      os_path_join_def starts_with_sep_def ends_with_sep_def)

subsection \<open>The tabular writer\<close>

lemma writeheader_row: "writeheader fieldnames out = Inr (out @ [fieldnames])"
proof -
  have "map_of (zip fieldnames fieldnames) k = Some k" if "k \<in> set fieldnames" for k
    using that by (induction fieldnames) auto
  then have "map (\<lambda>key. dict_get (zip fieldnames fieldnames) key '''') fieldnames = fieldnames"
    by (simp add: dict_get_def map_idI)
  moreover have "set (map fst (zip fieldnames fieldnames)) - set fieldnames = {}"
    by (auto dest: set_zip_leftD)
  ultimately show ?thesis
    by (simp add: writeheader_def writerow_def dict_to_list_def)
qed

lemma write_rows_uniform:
  "\<forall>r\<in>set rs. set (map fst r) \<subseteq> set fieldnames \<Longrightarrow>
   write_rows fieldnames rs out =
     (None, out @ map (\<lambda>r. map (\<lambda>key. dict_get r key '''') fieldnames) rs)"
proof (induction rs arbitrary: out)
  case Nil
  show ?case by simp
next
  case (Cons r rs)
  from Cons.prems have "set (map fst r) - set fieldnames = {}"
    by auto
  then have "writerow fieldnames r out = Inr (out @ [map (\<lambda>key. dict_get r key '''') fieldnames])"
    by (simp add: writerow_def dict_to_list_def)
  with Cons show ?case by simp
qed

lemma write_rows_append:
  "write_rows fieldnames (xs @ ys) out =
     (case write_rows fieldnames xs out of
        (None, out') \<Rightarrow> write_rows fieldnames ys out'
      | (Some e, out') \<Rightarrow> (Some e, out'))"
  by (induction xs arbitrary: out) (auto split: sum.splits)

text \<open>
  Claim C9. With no record, \<^verbatim>\<open>write_csv\<close> returns at once: no exception, and the
  disk, with every file on it, is the one it was given.
\<close>

theorem write_csv_empty_no_write:
  "write_csv [] path d = (None, d)"
  by simp

text \<open>
  Claim C5 says that a key of a later record that the first record lacks is ignored.
  It is not: the writer is built with the default \<^verbatim>\<open>extrasaction='raise'\<close>, and the
  second record here raises \<^verbatim>\<open>ValueError\<close> after the header and the first row.
\<close>

theorem write_csv_extra_key_counterexample:
  "write_csv [[(''file'', ''/a''), (''sha256'', ''00'')],
              [(''file'', ''/b''), (''sha256'', ''01''), (''size'', ''7'')]]
     ''hashes.csv'' example_disk =
   (Some (ValueError (FieldsNotInFieldnames {''size''})),
    example_disk\<lparr>contents := [''hashes.csv'' \<mapsto> [[''file'', ''sha256''], [''/a'', ''00'']]]\<rparr>)"
proof -
  have "set (map fst [(''file'', ''/b''), (''sha256'', ''01''), (''size'', ''7'')]) -
      set (map fst [(''file'', ''/a''), (''sha256'', ''00'')]) = {''size''}"
    by auto
  then show ?thesis
    by (simp add: example_disk_def writeheader_def writerow_def dict_to_list_def dict_get_def)
qed

text \<open>
  Claim C5, as amended: when the records before some later record \<open>bad\<close> have only keys
  of the first record and \<open>bad\<close> has a key the first record lacks, \<^verbatim>\<open>write_csv\<close>
  writes the header (the first record's keys) and one row per record before \<open>bad\<close>, in
  input order, and then raises the \<^verbatim>\<open>ValueError\<close> of the writer for the set of keys
  of \<open>bad\<close> that the first record lacks (in which order its message lists them is not
  determined).
\<close>

theorem write_csv_extra_key_raises:
  assumes "denied d path = None"
    and "\<forall>r\<in>set pre. set (map fst r) \<subseteq> set (map fst r0)"
    and "\<not> set (map fst bad) \<subseteq> set (map fst r0)"
  shows "write_csv (r0 # pre @ bad # post) path d =
     (Some (ValueError (FieldsNotInFieldnames (set (map fst bad) - set (map fst r0)))),
      d\<lparr>contents := (contents d)(path \<mapsto>
           map fst r0 # map (\<lambda>r. map (\<lambda>key. dict_get r key '''') (map fst r0)) (r0 # pre))\<rparr>)"
proof -
  let ?fn = "map fst r0"
  let ?body = "map (\<lambda>r. map (\<lambda>key. dict_get r key '''') ?fn) (r0 # pre)"
  let ?err = "ValueError (FieldsNotInFieldnames (set (map fst bad) - set ?fn))"
  have pre: "write_rows ?fn (r0 # pre) [?fn] = (None, [?fn] @ ?body)"
    using assms(2) by (intro write_rows_uniform) simp
  from assms(3) have "set (map fst bad) - set ?fn \<noteq> {}"
    by auto
  then have bad: "write_rows ?fn (bad # post) out = (Some ?err, out)" for out
    by (simp add: writerow_def dict_to_list_def)
  have "write_rows ?fn ((r0 # pre) @ bad # post) [?fn] = (Some ?err, [?fn] @ ?body)"
    unfolding write_rows_append pre by (simp only: bad prod.case option.case)
  then show ?thesis
    using assms(1) writeheader_row [of ?fn "[]"] by (simp del: write_rows.simps)
qed

theorem write_csv_extra_key_raises_witness:
  "denied example_disk ''hashes.csv'' = None \<and>
   \<not> set (map fst [(''file'', ''/c''), (''zeta'', ''1''), (''alpha'', ''2'')])
        \<subseteq> set (map fst [(''file'', ''/a''), (''sha256'', ''00'')]) \<and>
   write_csv ([(''file'', ''/a''), (''sha256'', ''00'')] # [[(''file'', ''/b'')]] @
              [(''file'', ''/c''), (''zeta'', ''1''), (''alpha'', ''2'')] # [[(''file'', ''/d'')]])
     ''hashes.csv'' example_disk =
   (Some (ValueError (FieldsNotInFieldnames {''alpha'', ''zeta''})),
    example_disk\<lparr>contents := [''hashes.csv'' \<mapsto> [[''file'', ''sha256''], [''/a'', ''00''], [''/b'', '''']]]\<rparr>)"
proof -
  have s: "set (map fst [(''file'', ''/c''), (''zeta'', ''1''), (''alpha'', ''2'')]) -
      set (map fst [(''file'', ''/a''), (''sha256'', ''00'')]) = {''alpha'', ''zeta''}"
    by auto
  show ?thesis
    using write_csv_extra_key_raises [where d = example_disk and path = "''hashes.csv''"
        and ?r0.0 = "[(''file'', ''/a''), (''sha256'', ''00'')]" and pre = "[[(''file'', ''/b'')]]"
        and bad = "[(''file'', ''/c''), (''zeta'', ''1''), (''alpha'', ''2'')]"
        and post = "[[(''file'', ''/d'')]]"]
    unfolding s by (simp add: example_disk_def dict_get_def)
qed

subsection \<open>The connection collector\<close>

text \<open>
  Claim C10. For a socket whose owning process id is 0, \<^verbatim>\<open>collect_connections\<close>
  records, at the socket's place in its output, the row with the empty string in the
  \<open>pid\<close> field, and that is the very row it records for the same socket with no
  process id: the output does not tell the two apart. Every socket gets a row.
\<close>

theorem collect_connections_pid_zero:
  "collect_connections (before @ conn\<lparr>pid := Some 0\<rparr> # after) =
     collect_connections before @
     [[(''pid'', ''''),
       (''local_address'', addr_str (laddr conn)),
       (''remote_address'', addr_str (raddr conn)),
       (''status'', status conn)]] @
     collect_connections after \<and>
   collect_connections (before @ conn\<lparr>pid := None\<rparr> # after) =
     collect_connections before @
     [[(''pid'', ''''),
       (''local_address'', addr_str (laddr conn)),
       (''remote_address'', addr_str (raddr conn)),
       (''status'', status conn)]] @
     collect_connections after \<and>
   length (collect_connections conns) = length conns"
  by (simp add: collect_connections_def conn_row_def pid_str_def)

subsection \<open>The uploader\<close>

lemma rstrip_sep_decomp: "\<exists>k. s = rstrip_sep s @ replicate k CHR ''/''"
proof -
  let ?P = "\<lambda>c. c = CHR ''/''"
  let ?t = "takeWhile ?P (rev s)"
  have "\<forall>y\<in>set ?t. y = CHR ''/''"
    using set_takeWhileD [of _ ?P "rev s"] by blast
  then have t: "replicate (length ?t) CHR ''/'' = ?t"
    by (rule replicate_length_same)
  have "s = rev (?t @ dropWhile ?P (rev s))"
    by simp
  also have "\<dots> = rstrip_sep s @ rev ?t"
    by (simp only: rev_append rstrip_sep_def)
  also have "rev ?t = replicate (length ?t) CHR ''/''"
    by (subst t [symmetric]) (simp only: rev_replicate)
  finally show ?thesis ..
qed

lemma rstrip_sep_no_trailing: "\<not> ends_with_sep (rstrip_sep s)"
proof (cases "dropWhile (\<lambda>c. c = CHR ''/'') (rev s) = []")
  case True
  then show ?thesis
    by (simp only: ends_with_sep_def rstrip_sep_def rev.simps) simp
next
  case False
  let ?d = "dropWhile (\<lambda>c. c = CHR ''/'') (rev s)"
  from False have "hd ?d \<noteq> CHR ''/''"
    by (rule hd_dropWhile)
  moreover from False have "last (rev ?d) = hd ?d"
    by (simp only: last_rev)
  ultimately show ?thesis
    by (simp only: ends_with_sep_def rstrip_sep_def) simp
qed

lemma rfind_sep_snoc:
  "rfind_sep (s @ [c]) = (if c = CHR ''/'' then int (length s) else rfind_sep s)"
proof -
  have "find (\<lambda>i. (s @ [c]) ! i = CHR ''/'') (rev [0..<length s]) =
        find (\<lambda>i. s ! i = CHR ''/'') (rev [0..<length s])"
    by (rule find_cong) (auto simp: nth_append)
  then show ?thesis
    by (simp add: rfind_sep_def)
qed

lemma rfind_sep_bound: "rfind_sep s < int (length s)"
proof (induction s rule: rev_induct)
  case Nil
  show ?case by (simp add: rfind_sep_def)
next
  case (snoc c s)
  then show ?case by (simp add: rfind_sep_snoc)
qed

lemma rfind_sep_lower: "- 1 \<le> rfind_sep s"
  by (simp add: rfind_sep_def split: option.splits)

lemma os_path_basename_eq:
  "os_path_basename p = rev (takeWhile (\<lambda>c. c \<noteq> CHR ''/'') (rev p))"
proof (induction p rule: rev_induct)
  case Nil
  show ?case by (simp add: os_path_basename_def)
next
  case (snoc c p)
  show ?case
  proof (cases "c = CHR ''/''")
    case True
    then show ?thesis by (simp add: os_path_basename_def rfind_sep_snoc)
  next
    case False
    have "nat (rfind_sep p + 1) \<le> length p"
      using rfind_sep_bound [of p] by simp
    then have "drop (nat (rfind_sep p + 1)) (p @ [c]) = drop (nat (rfind_sep p + 1)) p @ [c]"
      by simp
    with False snoc show ?thesis
      by (simp add: os_path_basename_def rfind_sep_snoc)
  qed
qed

lemma os_path_basename_no_sep: "CHR ''/'' \<notin> set (os_path_basename p)"
  unfolding os_path_basename_eq by (auto dest: set_takeWhileD)

lemma os_path_basename_decomp:
  "\<exists>d. p = d @ os_path_basename p \<and> (d = [] \<or> ends_with_sep d)"
proof -
  let ?P = "\<lambda>c. c \<noteq> CHR ''/''"
  let ?d = "dropWhile ?P (rev p)"
  have "p = rev (takeWhile ?P (rev p) @ ?d)"
    by simp
  also have "\<dots> = rev ?d @ os_path_basename p"
    by (simp only: rev_append os_path_basename_eq)
  finally have eq: "p = rev ?d @ os_path_basename p" .
  have "rev ?d = [] \<or> ends_with_sep (rev ?d)"
  proof (cases "?d = []")
    case True
    then show ?thesis by (simp only: rev.simps) simp
  next
    case False
    then have "\<not> hd ?d \<noteq> CHR ''/''"
      by (rule hd_dropWhile)
    moreover from False have "last (rev ?d) = hd ?d"
      by (simp only: last_rev)
    ultimately have "ends_with_sep (rev ?d)"
      using False by (simp only: ends_with_sep_def) simp
    then show ?thesis ..
  qed
  with eq show ?thesis by blast
qed

text \<open>
  Claim C8. When boto3 is there and the client is made, \<^verbatim>\<open>upload_to_s3\<close> uploads under
  the key \<open>rstrip_sep prefix @ ''/'' @ os_path_basename zip_path\<close>: the prefix without its
  trailing separators (only separators are removed, and none is left at the end), then
  a separator, then the part of the archive path after its last separator. The prefix
  \<^verbatim>\<open>main\<close> passes is the operator's, or the session timestamp when that is empty.
\<close>

theorem upload_to_s3_key:
  "boto3_installed env \<Longrightarrow> client_raises env = None \<Longrightarrow>
   uploads (upload_to_s3 env zip_path bucket prefix) =
     [(zip_path, bucket, rstrip_sep prefix @ ''/'' @ os_path_basename zip_path)] \<and>
   (\<exists>k. prefix = rstrip_sep prefix @ replicate k CHR ''/'') \<and>
   \<not> ends_with_sep (rstrip_sep prefix) \<and>
   (\<exists>d. zip_path = d @ os_path_basename zip_path \<and> (d = [] \<or> ends_with_sep d)) \<and>
   CHR ''/'' \<notin> set (os_path_basename zip_path) \<and>
   main_upload_call (a\<lparr>arg_s3_bucket := Some (b # bs), arg_s3_prefix := prefix\<rparr>) timestamp =
     Some (os_path_join ''output'' (timestamp @ ''.zip''), b # bs,
           if prefix = [] then timestamp else prefix)"
  using rstrip_sep_decomp [of prefix] os_path_basename_decomp [of zip_path]
  by (simp add: upload_to_s3_def Let_def rstrip_sep_no_trailing os_path_basename_no_sep
      main_upload_call_def str_or_def split: option.splits)

theorem upload_to_s3_key_witness:
  "boto3_installed example_env \<and> client_raises example_env = None \<and>
   uploads (upload_to_s3 example_env ''output/20240101T000000Z.zip'' ''bucket'' ''incidents/host//'') =
     [(''output/20240101T000000Z.zip'', ''bucket'', ''incidents/host/20240101T000000Z.zip'')] \<and>
   main_upload_call \<lparr>arg_targets = [''/var/log''], arg_zip = False, arg_s3_bucket = Some ''bucket'',
       arg_s3_prefix = ''''\<rparr>
       ''20240101T000000Z'' =
     Some (''output/20240101T000000Z.zip'', ''bucket'', ''20240101T000000Z'')"
proof -
  have h1: "boto3_installed example_env" and h2: "client_raises example_env = None"
    by (simp_all add: example_env_def)
  have b: "os_path_basename ''output/20240101T000000Z.zip'' = ''20240101T000000Z.zip''"
    by (simp add: os_path_basename_eq)
  have r: "rstrip_sep ''incidents/host//'' = ''incidents/host''"
    by (simp add: rstrip_sep_def)
  show ?thesis
    using h1 h2
      upload_to_s3_key [OF h1 h2, of "''output/20240101T000000Z.zip''" "''bucket''" "''incidents/host//''"]
    by (simp add: b r main_upload_call_def str_or_def os_path_join_def
        starts_with_sep_def ends_with_sep_def)
qed

text \<open>
  Claim C7 says that \<^verbatim>\<open>upload_to_s3\<close> never lets a failure reach its caller. The
  \<^verbatim>\<open>except\<close> clause names botocore's \<^verbatim>\<open>BotoCoreError\<close> only; a request that S3 rejects
  (\<open>AccessDenied\<close>) makes \<^verbatim>\<open>upload_file\<close> raise boto3's \<^verbatim>\<open>S3UploadFailedError\<close>,
  which is not one: here it leaves \<^verbatim>\<open>upload_to_s3\<close> and nothing is printed.
\<close>

theorem upload_to_s3_rejected_propagates:
  "upload_to_s3 example_env ''output/20240101T000000Z.zip'' ''denied'' ''incidents'' =
     \<lparr>raised = Some (S3UploadFailedError ''AccessDenied''), printed = [],
      uploads = [(''output/20240101T000000Z.zip'', ''denied'', ''incidents/20240101T000000Z.zip'')]\<rparr>"
proof -
  have b: "os_path_basename ''output/20240101T000000Z.zip'' = ''20240101T000000Z.zip''"
    by (simp add: os_path_basename_eq)
  have r: "rstrip_sep ''incidents'' = ''incidents''"
    by (simp add: rstrip_sep_def)
  show ?thesis
    by (simp add: upload_to_s3_def example_env_def b r)
qed


text \<open>
  What does hold of the uploader: without boto3 it prints one line and returns, and an
  exception of \<^verbatim>\<open>upload_file\<close> that is a \<^verbatim>\<open>BotoCoreError\<close> is printed, not raised.
\<close>

lemma upload_to_s3_reports:
  "raised (upload_to_s3 (env\<lparr>boto3_installed := False\<rparr>) zip_path bucket prefix) = None"
  "printed (upload_to_s3 (env\<lparr>boto3_installed := False\<rparr>) zip_path bucket prefix) =
     [''boto3 is not installed; cannot upload to S3.'']"
  "caught_by_upload e \<Longrightarrow>
   raised (upload_to_s3
     \<lparr>boto3_installed = True, client_raises = None, upload_file_raises = (\<lambda>z b k. Some e)\<rparr>
     zip_path bucket prefix) = None"
  by (simp_all add: upload_to_s3_def)

subsection \<open>Paths\<close>









lemma starts_with_sep_append: "p \<noteq> [] \<Longrightarrow> starts_with_sep (p @ x) = starts_with_sep p"
  by (cases p) (simp_all add: starts_with_sep_def)














lemma sep_join_snoc: "xs \<noteq> [] \<Longrightarrow> sep_join (xs @ [y]) = sep_join xs @ CHR ''/'' # y"
  by (induction xs rule: sep_join.induct) auto







subsection \<open>The archiver\<close>






































end
